theory Spec2Isabelle
  imports Complex_Main "HOL-Library.Sublist" "HOL-Library.Word"
begin

section \<open>The OTLP exporter channel of goxkit/otel\<close>

text \<open>
  The repository holds one package in two variants: \<^verbatim>\<open>otlpgrpc/gprc.go\<close>, which selects
  transport credentials and attaches per-call headers, and \<^verbatim>\<open>otlp_grpc/gprc.go\<close>, an
  earlier variant that always dials in plaintext and attaches nothing. Both export one
  function, \<^verbatim>\<open>NewExporterGRPCClient\<close>, which assembles the arguments of
  \<^verbatim>\<open>grpc.NewClient\<close> and calls it.

  Go strings are byte sequences, so they are \<^typ>\<open>string\<close> here (a \<^typ>\<open>char\<close> is one
  byte). A \<^verbatim>\<open>map[string]string\<close> is a map \<^typ>\<open>string \<rightharpoonup> string\<close>. A pointer that the
  caller supplies is an \<^typ>\<open>'a option\<close> whose \<^term>\<open>None\<close> is \<^verbatim>\<open>nil\<close>; reading a field
  through \<^verbatim>\<open>nil\<close> panics, and a panic is the left summand of a function's result.
\<close>

subsection \<open>The parts of the Go standard library that the package calls\<close>

text \<open>
  \<^verbatim>\<open>time.Duration\<close> is an \<^verbatim>\<open>int64\<close> counting nanoseconds; the constants are those of
  package \<^verbatim>\<open>time\<close>.
\<close>

type_synonym Duration = "64 word"

definition Nanosecond :: Duration where
  "Nanosecond = 1"

definition Microsecond :: Duration where
  "Microsecond = 1000 * Nanosecond"

definition Millisecond :: Duration where
  "Millisecond = 1000 * Microsecond"

definition Second :: Duration where
  "Second = 1000 * Millisecond"

text \<open>
  \<^verbatim>\<open>strings.Index(s, sep)\<close> with a one-byte \<^verbatim>\<open>sep\<close> is \<^verbatim>\<open>IndexByte\<close>: the position of
  the first occurrence, or \<^verbatim>\<open>-1\<close> (here \<^term>\<open>None\<close>). \<^verbatim>\<open>strings.Count\<close> with a one-byte
  \<^verbatim>\<open>sep\<close> counts the occurrences of that byte. The package passes the literals
  \<^verbatim>\<open>","\<close> and \<^verbatim>\<open>"="\<close> only, so the separator is a \<^typ>\<open>char\<close> and the branch of
  \<^verbatim>\<open>genSplit\<close> for an empty separator does not arise.
\<close>

fun IndexByte :: "string \<Rightarrow> char \<Rightarrow> nat option" where
  "IndexByte [] c = None"
| "IndexByte (x # xs) c = (if x = c then Some 0 else map_option Suc (IndexByte xs c))"

definition Count :: "string \<Rightarrow> char \<Rightarrow> nat" where
  "Count s c = length (filter (\<lambda>x. x = c) s)"

text \<open>
  The loop of \<^verbatim>\<open>strings.genSplit\<close>:
  \<^verbatim>\<open>
  for i < n {
      m := Index(s, sep)
      if m < 0 { break }
      a[i] = s[:m+sepSave]
      s = s[m+len(sep):]
      i++
  }
  a[i] = s
  \<close>
  with \<^verbatim>\<open>sepSave = 0\<close> and \<^verbatim>\<open>len(sep) = 1\<close>. It runs after \<^verbatim>\<open>n--\<close>, and the first argument
  of \<open>splitLoop\<close> is \<^verbatim>\<open>n - i\<close>, the number of cuts still allowed.
\<close>

fun splitLoop :: "nat \<Rightarrow> string \<Rightarrow> char \<Rightarrow> string list" where
  "splitLoop 0 s sep = [s]"
| "splitLoop (Suc k) s sep =
     (case IndexByte s sep of
        None \<Rightarrow> [s]
      | Some m \<Rightarrow> take m s # splitLoop k (drop (m + 1) s) sep)"

text \<open>
  \<^verbatim>\<open>genSplit(s, sep, 0, n)\<close>: nothing for \<^verbatim>\<open>n == 0\<close>; every piece for \<^verbatim>\<open>n < 0\<close>
  (\<^verbatim>\<open>n = Count(s, sep) + 1\<close>); at most \<^verbatim>\<open>n\<close> pieces otherwise, the last one holding the
  unsplit rest; \<^verbatim>\<open>n\<close> is capped at \<^verbatim>\<open>len(s) + 1\<close>. The array has \<^verbatim>\<open>n\<close> cells and the
  loop makes at most \<^verbatim>\<open>n - 1\<close> cuts.
\<close>

definition genSplit :: "string \<Rightarrow> char \<Rightarrow> int \<Rightarrow> string list" where
  "genSplit s sep n =
     (if n = 0 then []
      else
        let n1 = (if n < 0 then int (Count s sep) + 1 else n);
            n2 = (if n1 > int (length s) + 1 then int (length s) + 1 else n1)
        in splitLoop (nat (n2 - 1)) s sep)"

definition Split :: "string \<Rightarrow> char \<Rightarrow> string list" where
  "Split s sep = genSplit s sep (- 1)"

definition SplitN :: "string \<Rightarrow> char \<Rightarrow> int \<Rightarrow> string list" where
  "SplitN s sep n = genSplit s sep n"

text \<open>
  \<^verbatim>\<open>strings.TrimSpace\<close> removes the leading and the trailing white-space runes, as
  \<^verbatim>\<open>unicode.IsSpace\<close> defines them: U+0009 to U+000D, U+0020, U+0085, U+00A0, U+1680,
  U+2000 to U+200A, U+2028, U+2029, U+202F, U+205F and U+3000. A rune is white space at
  the start (at the end) of a string exactly when the string starts (ends) with the
  UTF-8 encoding of one of them: an invalid byte decodes to U+FFFD, which is not white
  space. \<open>spaceEncodings\<close> lists those encodings.
\<close>

definition spaceEncodings :: "string list" where
  "spaceEncodings =
     [[CHR 0x09], [CHR 0x0A], [CHR 0x0B], [CHR 0x0C], [CHR 0x0D], [CHR 0x20],
      [CHR 0xC2, CHR 0x85], [CHR 0xC2, CHR 0xA0],
      [CHR 0xE1, CHR 0x9A, CHR 0x80],
      [CHR 0xE2, CHR 0x80, CHR 0x80], [CHR 0xE2, CHR 0x80, CHR 0x81],
      [CHR 0xE2, CHR 0x80, CHR 0x82], [CHR 0xE2, CHR 0x80, CHR 0x83],
      [CHR 0xE2, CHR 0x80, CHR 0x84], [CHR 0xE2, CHR 0x80, CHR 0x85],
      [CHR 0xE2, CHR 0x80, CHR 0x86], [CHR 0xE2, CHR 0x80, CHR 0x87],
      [CHR 0xE2, CHR 0x80, CHR 0x88], [CHR 0xE2, CHR 0x80, CHR 0x89],
      [CHR 0xE2, CHR 0x80, CHR 0x8A],
      [CHR 0xE2, CHR 0x80, CHR 0xA8], [CHR 0xE2, CHR 0x80, CHR 0xA9],
      [CHR 0xE2, CHR 0x80, CHR 0xAF],
      [CHR 0xE2, CHR 0x81, CHR 0x9F],
      [CHR 0xE3, CHR 0x80, CHR 0x80]]"

definition leadingSpace :: "string \<Rightarrow> string option" where
  "leadingSpace s = find (\<lambda>e. prefix e s) spaceEncodings"

definition trailingSpace :: "string \<Rightarrow> string option" where
  "trailingSpace s = find (\<lambda>e. suffix e s) spaceEncodings"

function TrimLeftSpace :: "string \<Rightarrow> string" where
  "TrimLeftSpace s =
     (case leadingSpace s of
        None \<Rightarrow> s
      | Some e \<Rightarrow> TrimLeftSpace (drop (length e) s))"
  by pat_completeness auto
termination
proof (relation "measure length")
  show "wf (measure length)" by simp
next
  fix s e
  assume "leadingSpace s = Some e"
  then have "e \<in> set spaceEncodings" and "prefix e s"
    by (auto simp: leadingSpace_def find_Some_iff)
  then have "e \<noteq> []" and "length e \<le> length s"
    by (auto simp: spaceEncodings_def dest: prefix_length_le)
  then show "(drop (length e) s, s) \<in> measure length"
    by (cases e) auto
qed

function TrimRightSpace :: "string \<Rightarrow> string" where
  "TrimRightSpace s =
     (case trailingSpace s of
        None \<Rightarrow> s
      | Some e \<Rightarrow> TrimRightSpace (take (length s - length e) s))"
  by pat_completeness auto
termination
proof (relation "measure length")
  show "wf (measure length)" by simp
next
  fix s e
  assume "trailingSpace s = Some e"
  then have "e \<in> set spaceEncodings" and "suffix e s"
    by (auto simp: trailingSpace_def find_Some_iff)
  then have "e \<noteq> []" and "length e \<le> length s"
    by (auto simp: spaceEncodings_def dest: suffix_length_le)
  then show "(take (length s - length e) s, s) \<in> measure length"
    by (cases e) auto
qed

definition TrimSpace :: "string \<Rightarrow> string" where
  "TrimSpace s = TrimRightSpace (TrimLeftSpace s)"

subsection \<open>The caller's configuration\<close>

text \<open>
  \<^verbatim>\<open>configs.Configs\<close> and \<^verbatim>\<open>configs.OTLPConfigs\<close> are declared in
  \<^verbatim>\<open>github.com/goxkit/configs\<close>, outside this repository. The records hold the fields
  that the package reads and leave out whatever else the declarations carry.
  \<^verbatim>\<open>Configs.OTLPConfigs\<close> is a pointer (the README builds it with
  \<^verbatim>\<open>&configs.OTLPConfigs{...}\<close>), and so is the \<^verbatim>\<open>cfgs\<close> that every function receives.
\<close>

record OTLPConfigs =
  Endpoint :: string
  ExporterTLSEnabled :: bool
  ExporterIdleTimeout :: Duration
  ExporterKeepAliveTime :: Duration
  ExporterKeepAliveTimeout :: Duration
  ExporterHeaders :: string

record Configs =
  OTLPConfigs :: "OTLPConfigs option"

datatype go_panic = NilPointerDereference

text \<open>The expression \<^verbatim>\<open>cfgs.OTLPConfigs\<close> followed by a field read: both pointers are followed.\<close>

definition cfgs_OTLPConfigs :: "Configs option \<Rightarrow> go_panic + OTLPConfigs" where
  "cfgs_OTLPConfigs cfgs =
     (case cfgs of
        None \<Rightarrow> Inl NilPointerDereference
      | Some c \<Rightarrow>
          (case OTLPConfigs c of
             None \<Rightarrow> Inl NilPointerDereference
           | Some oc \<Rightarrow> Inr oc))"

subsection \<open>The values handed to the gRPC library\<close>

text \<open>
  A certificate pool is the list of the certificates added to it;
  \<^verbatim>\<open>x509.NewCertPool()\<close> returns a pool with none. The two transport credentials are the
  results of \<^verbatim>\<open>insecure.NewCredentials()\<close> and of
  \<^verbatim>\<open>credentials.NewClientTLSFromCert(cp, serverNameOverride)\<close>.
\<close>

type_synonym CertPool = "string list"

definition NewCertPool :: CertPool where
  "NewCertPool = []"

datatype TransportCredentials =
    insecure_NewCredentials
  | NewClientTLSFromCert CertPool string

record perRPCCredentials =
  tlsEnabled :: bool
  headers :: "string \<rightharpoonup> string"

text \<open>
  \<^verbatim>\<open>keepalive.ClientParameters\<close>, \<^verbatim>\<open>backoff.Config\<close> and \<^verbatim>\<open>grpc.ConnectParams\<close> with all
  their fields; a field that a composite literal leaves out has its zero value. The
  \<^verbatim>\<open>float64\<close> fields hold the rational value of the decimal literal of the source: the
  package computes nothing with them.
\<close>

record ClientParameters =
  Time :: Duration
  Timeout :: Duration
  PermitWithoutStream :: bool

record backoff_Config =
  BaseDelay :: Duration
  Multiplier :: rat
  Jitter :: rat
  MaxDelay :: Duration

record ConnectParams =
  Backoff :: backoff_Config
  MinConnectTimeout :: Duration

datatype DialOption =
    WithTransportCredentials TransportCredentials
  | WithPerRPCCredentials perRPCCredentials
  | WithIdleTimeout Duration
  | WithKeepaliveParams ClientParameters
  | WithConnectParams ConnectParams

text \<open>
  An \<^verbatim>\<open>error\<close> is either one that the gRPC library made, known by its message, or the
  result of \<^verbatim>\<open>fmt.Errorf\<close> with the verb \<^verbatim>\<open>%w\<close>: a message and the error it wraps.
\<close>

datatype error =
    grpcError string
  | wrapError string error

fun Error :: "error \<Rightarrow> string" where
  "Error (grpcError msg) = msg"
| "Error (wrapError msg err) = msg"

fun Unwrap :: "error \<Rightarrow> error option" where
  "Unwrap (grpcError msg) = None"
| "Unwrap (wrapError msg err) = Some err"

text \<open>\<^verbatim>\<open>fmt.Errorf(context + "%w", err)\<close> for a \<^verbatim>\<open>context\<close> without verbs and a non-nil \<^verbatim>\<open>err\<close>.\<close>

definition Errorf_w :: "string \<Rightarrow> error \<Rightarrow> error" where
  "Errorf_w context err = wrapError (context @ Error err) err"

text \<open>
  \<^verbatim>\<open>grpc.NewClient(target, opts...)\<close> belongs to the gRPC library. It is a parameter of
  the model: a function of the target, the options and the state \<open>'w\<close> of everything
  outside the package, returning the pair \<^verbatim>\<open>(conn, err)\<close> and the new state.
\<close>

type_synonym ('w, 'conn) grpc_NewClient =
  "string \<Rightarrow> DialOption list \<Rightarrow> 'w \<Rightarrow> ('conn option \<times> error option) \<times> 'w"

subsection \<open>Package otlpgrpc\<close>

definition evaluateCredentials :: "Configs option \<Rightarrow> go_panic + TransportCredentials" where
  "evaluateCredentials cfgs =
     (case cfgs_OTLPConfigs cfgs of
        Inl p \<Rightarrow> Inl p
      | Inr oc \<Rightarrow>
          if \<not> ExporterTLSEnabled oc then Inr insecure_NewCredentials
          else
            let certPool = NewCertPool
            in Inr (NewClientTLSFromCert certPool ''''))"

text \<open>
  The body of \<^verbatim>\<open>for _, kv := range keyValue\<close> in \<^verbatim>\<open>newPerRPCCredentials\<close>, with the map
  \<^verbatim>\<open>h\<close> passed along.
\<close>

fun headersLoop :: "string list \<Rightarrow> (string \<rightharpoonup> string) \<Rightarrow> (string \<rightharpoonup> string)" where
  "headersLoop [] h = h"
| "headersLoop (kv # keyValue) h =
     (let parts = SplitN kv (CHR ''='') 2
      in if length parts = 2 then
           let key = TrimSpace (parts ! 0);
               val = TrimSpace (parts ! 1)
           in if key \<noteq> [] then headersLoop keyValue (h(key \<mapsto> val))
              else headersLoop keyValue h
         else headersLoop keyValue h)"

definition newPerRPCCredentials :: "Configs option \<Rightarrow> go_panic + perRPCCredentials" where
  "newPerRPCCredentials cfgs =
     (let h = Map.empty
      in case cfgs_OTLPConfigs cfgs of
           Inl p \<Rightarrow> Inl p
         | Inr oc \<Rightarrow>
             let h' = (if ExporterHeaders oc \<noteq> []
                       then headersLoop (Split (ExporterHeaders oc) (CHR '','')) h
                       else h)
             in Inr \<lparr>tlsEnabled = ExporterTLSEnabled oc, headers = h'\<rparr>)"

text \<open>
  The methods have a pointer receiver and assign to none of its fields. The type is
  unexported and its only value is the one that \<^verbatim>\<open>newPerRPCCredentials\<close> allocates, so
  the receiver is never \<^verbatim>\<open>nil\<close>. The context and the URIs are ignored.
\<close>

definition GetRequestMetadata ::
  "perRPCCredentials \<Rightarrow> 'ctx \<Rightarrow> string list \<Rightarrow> (string \<rightharpoonup> string) \<times> error option" where
  "GetRequestMetadata h ctx uri = (headers h, None)"

definition RequireTransportSecurity :: "perRPCCredentials \<Rightarrow> bool" where
  "RequireTransportSecurity h = tlsEnabled h"

text \<open>
  \<open>NewExporterGRPCClient\<close> calls \<^verbatim>\<open>grpc.NewClient\<close> with the endpoint and five options.
  The arguments are evaluated left to right, so the first field read through \<^verbatim>\<open>cfgs\<close>
  decides about the panic, which happens before the library is called. The composite
  literals leave out \<^verbatim>\<open>PermitWithoutStream\<close> and \<^verbatim>\<open>Jitter\<close>.
\<close>

definition NewExporterGRPCClient ::
  "('w, 'conn) grpc_NewClient \<Rightarrow> Configs option \<Rightarrow> 'w \<Rightarrow>
     (go_panic + 'conn option \<times> error option) \<times> 'w" where
  "NewExporterGRPCClient grpc_NewClient cfgs w =
     (case cfgs_OTLPConfigs cfgs of
        Inl p \<Rightarrow> (Inl p, w)
      | Inr oc \<Rightarrow>
     (case evaluateCredentials cfgs of
        Inl p \<Rightarrow> (Inl p, w)
      | Inr creds \<Rightarrow>
     (case newPerRPCCredentials cfgs of
        Inl p \<Rightarrow> (Inl p, w)
      | Inr perRPC \<Rightarrow>
          let ((conn, err), w') =
                grpc_NewClient (Endpoint oc)
                  [WithTransportCredentials creds,
                   WithPerRPCCredentials perRPC,
                   WithIdleTimeout (ExporterIdleTimeout oc),
                   WithKeepaliveParams
                     \<lparr>Time = ExporterKeepAliveTime oc,
                      Timeout = ExporterKeepAliveTimeout oc,
                      PermitWithoutStream = False\<rparr>,
                   WithConnectParams
                     \<lparr>Backoff =
                        \<lparr>BaseDelay = 1 * Second,
                         Multiplier = 1.6,
                         Jitter = 0,
                         MaxDelay = 15 * Second\<rparr>,
                      MinConnectTimeout = 0\<rparr>]
                  w
          in case err of
               Some e \<Rightarrow>
                 (Inr (None,
                       Some (Errorf_w ''failed to create otel exporter gRPC conn: '' e)),
                  w')
             | None \<Rightarrow> (Inr (conn, err), w'))))"

subsection \<open>Package otlpgrpc, the variant in directory otlp_grpc\<close>

text \<open>
  The same function without \<^verbatim>\<open>evaluateCredentials\<close> and \<^verbatim>\<open>newPerRPCCredentials\<close>: the
  transport credentials are always \<^verbatim>\<open>insecure.NewCredentials()\<close> and there is no
  \<^verbatim>\<open>WithPerRPCCredentials\<close> option.
\<close>

definition NewExporterGRPCClient_otlp_grpc ::
  "('w, 'conn) grpc_NewClient \<Rightarrow> Configs option \<Rightarrow> 'w \<Rightarrow>
     (go_panic + 'conn option \<times> error option) \<times> 'w" where
  "NewExporterGRPCClient_otlp_grpc grpc_NewClient cfgs w =
     (case cfgs_OTLPConfigs cfgs of
        Inl p \<Rightarrow> (Inl p, w)
      | Inr oc \<Rightarrow>
          let ((conn, err), w') =
                grpc_NewClient (Endpoint oc)
                  [WithTransportCredentials insecure_NewCredentials,
                   WithIdleTimeout (ExporterIdleTimeout oc),
                   WithKeepaliveParams
                     \<lparr>Time = ExporterKeepAliveTime oc,
                      Timeout = ExporterKeepAliveTimeout oc,
                      PermitWithoutStream = False\<rparr>,
                   WithConnectParams
                     \<lparr>Backoff =
                        \<lparr>BaseDelay = 1 * Second,
                         Multiplier = 1.6,
                         Jitter = 0,
                         MaxDelay = 15 * Second\<rparr>,
                      MinConnectTimeout = 0\<rparr>]
                  w
          in case err of
               Some e \<Rightarrow>
                 (Inr (None,
                       Some (Errorf_w ''failed to create otel exporter gRPC conn: '' e)),
                  w')
             | None \<Rightarrow> (Inr (conn, err), w'))"

subsection \<open>Notions used to state the properties\<close>

text \<open>
  The key and the value of an entry \<^verbatim>\<open>key=value\<close> as the specification describes them:
  the text before the first \<^verbatim>\<open>=\<close> and the text after it, each with the white space
  around it trimmed. They are compared below with what \<open>headersLoop\<close> computes through
  \<open>SplitN\<close>.
\<close>

definition entryKey :: "string \<Rightarrow> string" where
  "entryKey kv = TrimSpace (takeWhile (\<lambda>c. c \<noteq> CHR ''='') kv)"

definition entryValue :: "string \<Rightarrow> string" where
  "entryValue kv = TrimSpace (tl (dropWhile (\<lambda>c. c \<noteq> CHR ''='') kv))"

text \<open>
  \<^verbatim>\<open>strings.Join\<close> with a one-byte separator, the inverse of \<open>Split\<close>.
\<close>

fun Join :: "string list \<Rightarrow> char \<Rightarrow> string" where
  "Join [] sep = []"
| "Join [a] sep = a"
| "Join (a # b # rest) sep = a @ sep # Join (b # rest) sep"

text \<open>
  Calls of the two methods through the pointer receiver. A call returns its result and
  the fields of the receiver after it; neither method assigns a field, so the receiver
  comes back as it went in.
\<close>

datatype 'ctx methodCall =
    call_GetRequestMetadata 'ctx "string list"
  | call_RequireTransportSecurity

datatype methodResult =
    result_GetRequestMetadata "(string \<rightharpoonup> string) \<times> error option"
  | result_RequireTransportSecurity bool

fun callMethod :: "perRPCCredentials \<Rightarrow> 'ctx methodCall \<Rightarrow> methodResult \<times> perRPCCredentials" where
  "callMethod h (call_GetRequestMetadata ctx uri) =
     (result_GetRequestMetadata (GetRequestMetadata h ctx uri), h)"
| "callMethod h call_RequireTransportSecurity =
     (result_RequireTransportSecurity (RequireTransportSecurity h), h)"

fun callSequence ::
  "perRPCCredentials \<Rightarrow> 'ctx methodCall list \<Rightarrow> methodResult list \<times> perRPCCredentials" where
  "callSequence h [] = ([], h)"
| "callSequence h (c # cs) =
     (let (r, h') = callMethod h c;
          (rs, h'') = callSequence h' cs
      in (r # rs, h''))"

text \<open>
  Two stand-ins for the gRPC library. \<open>recording\<close> wraps any \<^verbatim>\<open>grpc.NewClient\<close> and logs
  the arguments of every call. \<open>rejectingNewClient\<close> rejects every configuration and
  counts its calls; its message stands for whatever the library reports.
\<close>

definition recording ::
  "('w, 'conn) grpc_NewClient \<Rightarrow>
     ((string \<times> DialOption list) list \<times> 'w, 'conn) grpc_NewClient" where
  "recording grpc_NewClient target opts lw =
     (let (calls, w) = lw;
          (r, w') = grpc_NewClient target opts w
      in (r, (calls @ [(target, opts)], w')))"

definition rejectingNewClient :: "(nat, unit) grpc_NewClient" where
  "rejectingNewClient target opts calls =
     ((None, Some (grpcError ''invalid target'')), Suc calls)"

text \<open>
  The connect parameters that the specification fixes, in nanoseconds, and the options
  that each variant is expected to pass for a configuration.
\<close>

definition fixedConnectParams :: ConnectParams where
  "fixedConnectParams =
     \<lparr>Backoff = \<lparr>BaseDelay = 1000000000, Multiplier = 1.6, Jitter = 0,
                 MaxDelay = 15000000000\<rparr>,
      MinConnectTimeout = 0\<rparr>"

definition dialOptions :: "OTLPConfigs \<Rightarrow> DialOption list" where
  "dialOptions oc =
     [WithTransportCredentials
        (if ExporterTLSEnabled oc then NewClientTLSFromCert [] ''''
         else insecure_NewCredentials),
      WithPerRPCCredentials
        \<lparr>tlsEnabled = ExporterTLSEnabled oc,
         headers = (if ExporterHeaders oc \<noteq> []
                    then headersLoop (Split (ExporterHeaders oc) (CHR '','')) Map.empty
                    else Map.empty)\<rparr>,
      WithIdleTimeout (ExporterIdleTimeout oc),
      WithKeepaliveParams
        \<lparr>Time = ExporterKeepAliveTime oc, Timeout = ExporterKeepAliveTimeout oc,
         PermitWithoutStream = False\<rparr>,
      WithConnectParams fixedConnectParams]"

definition dialOptions_otlp_grpc :: "OTLPConfigs \<Rightarrow> DialOption list" where
  "dialOptions_otlp_grpc oc =
     [WithTransportCredentials insecure_NewCredentials,
      WithIdleTimeout (ExporterIdleTimeout oc),
      WithKeepaliveParams
        \<lparr>Time = ExporterKeepAliveTime oc, Timeout = ExporterKeepAliveTimeout oc,
         PermitWithoutStream = False\<rparr>,
      WithConnectParams fixedConnectParams]"

text \<open>The configuration of the README, with a TLS flag and a header string.\<close>

definition exampleOTLPConfigs :: "bool \<Rightarrow> string \<Rightarrow> OTLPConfigs" where
  "exampleOTLPConfigs tls hs =
     \<lparr>Endpoint = ''localhost:4317'', ExporterTLSEnabled = tls,
      ExporterIdleTimeout = 30 * Second, ExporterKeepAliveTime = 5 * Second,
      ExporterKeepAliveTimeout = 1 * Second, ExporterHeaders = hs\<rparr>"

definition exampleConfigs :: "bool \<Rightarrow> string \<Rightarrow> Configs option" where
  "exampleConfigs tls hs = Some \<lparr>OTLPConfigs = Some (exampleOTLPConfigs tls hs)\<rparr>"

section \<open>Properties\<close>

subsection \<open>Splitting\<close>

lemma IndexByte_eq:
  "IndexByte s c =
     (if c \<in> set s then Some (length (takeWhile (\<lambda>x. x \<noteq> c) s)) else None)"
  by (induction s) auto

lemma take_length_takeWhile: "take (length (takeWhile P s)) s = takeWhile P s"
  by (induction s) auto

lemma drop_Suc_length_takeWhile:
  "drop (Suc (length (takeWhile P s))) s = tl (dropWhile P s)"
  by (induction s) auto

lemma splitLoop_Suc_0:
  "splitLoop (Suc 0) s c =
     (if c \<in> set s then [takeWhile (\<lambda>x. x \<noteq> c) s, tl (dropWhile (\<lambda>x. x \<noteq> c) s)]
      else [s])"
  by (simp add: IndexByte_eq take_length_takeWhile drop_Suc_length_takeWhile)

text \<open>
  \<^verbatim>\<open>SplitN(kv, "=", 2)\<close> cuts at the first \<^verbatim>\<open>=\<close> and nowhere else; without one it
  returns the entry alone.
\<close>

lemma SplitN_2:
  "SplitN kv c 2 =
     (if c \<in> set kv then [takeWhile (\<lambda>x. x \<noteq> c) kv, tl (dropWhile (\<lambda>x. x \<noteq> c) kv)]
      else [kv])"
proof (cases kv)
  case Nil
  then show ?thesis by (simp add: SplitN_def genSplit_def)
next
  case (Cons x xs)
  then have "SplitN kv c 2 = splitLoop (Suc 0) kv c"
    by (simp add: SplitN_def genSplit_def del: splitLoop.simps)
  then show ?thesis by (simp only: splitLoop_Suc_0)
qed

lemma Split_no_sep: "c \<notin> set s \<Longrightarrow> Split s c = [s]"
proof -
  assume "c \<notin> set s"
  then have "Count s c = 0" by (auto simp: Count_def filter_empty_conv)
  then show ?thesis by (simp add: Split_def genSplit_def)
qed

lemma takeWhile_before_sep: "c \<notin> set k \<Longrightarrow> takeWhile (\<lambda>x. x \<noteq> c) (k @ c # v) = k"
  by (induction k) auto

lemma dropWhile_before_sep: "c \<notin> set k \<Longrightarrow> dropWhile (\<lambda>x. x \<noteq> c) (k @ c # v) = c # v"
  by (induction k) auto

text \<open>
  \<open>Split\<close> cuts at every separator: the first piece ends at the first separator and
  the rest is split in the same way. No piece holds a separator, and the pieces joined
  by the separator are the string.
\<close>

lemma Count_le_length: "Count s c \<le> length s"
  by (simp add: Count_def)

lemma Split_splitLoop: "Split s c = splitLoop (Count s c) s c"
  using Count_le_length [of s c] by (simp add: Split_def genSplit_def)

lemma Count_after_first:
  "c \<in> set s \<Longrightarrow> Count s c = Suc (Count (tl (dropWhile (\<lambda>x. x \<noteq> c) s)) c)"
  by (induction s) (auto simp: Count_def)

lemma splitLoop_Suc:
  "splitLoop (Suc k) s c =
     (if c \<in> set s
      then takeWhile (\<lambda>x. x \<noteq> c) s # splitLoop k (tl (dropWhile (\<lambda>x. x \<noteq> c) s)) c
      else [s])"
  by (simp add: IndexByte_eq take_length_takeWhile drop_Suc_length_takeWhile)

lemma Split_unfold:
  "Split s c =
     (if c \<in> set s
      then takeWhile (\<lambda>x. x \<noteq> c) s # Split (tl (dropWhile (\<lambda>x. x \<noteq> c) s)) c
      else [s])"
proof (cases "c \<in> set s")
  case True
  then show ?thesis
    by (simp only: Split_splitLoop Count_after_first [OF True] splitLoop_Suc)
next
  case False
  then show ?thesis by (simp add: Split_no_sep)
qed

lemma Split_append_sep: "c \<notin> set a \<Longrightarrow> Split (a @ c # b) c = a # Split b c"
  by (subst Split_unfold) (simp add: takeWhile_before_sep dropWhile_before_sep)

lemma length_tl_dropWhile: "c \<in> set s \<Longrightarrow> length (tl (dropWhile P s)) < length s"
proof -
  assume "c \<in> set s"
  then have "0 < length s" by (cases s) auto
  moreover have "length (dropWhile P s) \<le> length s" by (rule length_dropWhile_le)
  ultimately show ?thesis by (cases "dropWhile P s") (simp_all del: dropWhile_eq_Nil_conv)
qed

lemma dropWhile_at_sep:
  "c \<in> set s \<Longrightarrow> dropWhile (\<lambda>x. x \<noteq> c) s = c # tl (dropWhile (\<lambda>x. x \<noteq> c) s)"
  by (induction s) auto

lemma Split_no_sep_in_entries: "e \<in> set (Split s c) \<Longrightarrow> c \<notin> set e"
proof (induction s rule: length_induct)
  case (1 s)
  show ?case
  proof (cases "c \<in> set s")
    case True
    let ?r = "tl (dropWhile (\<lambda>x. x \<noteq> c) s)"
    from True have "length ?r < length s" by (rule length_tl_dropWhile)
    with 1 have ih: "e \<in> set (Split ?r c) \<Longrightarrow> c \<notin> set e" by blast
    from "1.prems" True have "e = takeWhile (\<lambda>x. x \<noteq> c) s \<or> e \<in> set (Split ?r c)"
      by (subst (asm) Split_unfold) simp
    then show ?thesis
      using ih by (auto dest: set_takeWhileD)
  next
    case False
    with "1.prems" show ?thesis by (simp add: Split_no_sep)
  qed
qed


lemma Split_nonempty: "Split s c \<noteq> []"
  by (subst Split_unfold) simp

lemma Join_Cons: "xs \<noteq> [] \<Longrightarrow> Join (a # xs) c = a @ c # Join xs c"
  by (cases xs) simp_all

lemma Join_Split: "Join (Split s c) c = s"
proof (induction s rule: length_induct)
  case (1 s)
  show ?case
  proof (cases "c \<in> set s")
    case True
    let ?r = "tl (dropWhile (\<lambda>x. x \<noteq> c) s)"
    from True have "length ?r < length s" by (rule length_tl_dropWhile)
    with 1 have ih: "Join (Split ?r c) c = ?r" by blast
    from True have "dropWhile (\<lambda>x. x \<noteq> c) s = c # ?r"
      by (rule dropWhile_at_sep)
    then have "s = takeWhile (\<lambda>x. x \<noteq> c) s @ c # ?r"
      by (metis takeWhile_dropWhile_id)
    moreover have "Join (Split s c) c = takeWhile (\<lambda>x. x \<noteq> c) s @ c # ?r"
      using True by (subst Split_unfold) (simp add: Join_Cons Split_nonempty ih)
    ultimately show ?thesis by simp
  next
    case False
    then show ?thesis by (simp add: Split_no_sep)
  qed
qed

subsection \<open>Trimming\<close>

lemma TrimSpace_Nil: "TrimSpace [] = []"
  by (simp add: TrimSpace_def leadingSpace_def trailingSpace_def spaceEncodings_def)

text \<open>What \<open>TrimSpace\<close> returns neither starts nor ends with a white-space rune.\<close>

lemma leadingSpace_TrimLeftSpace: "leadingSpace (TrimLeftSpace s) = None"
proof (induction s rule: TrimLeftSpace.induct)
  case (1 s)
  show ?case
  proof (cases "leadingSpace s")
    case None
    then show ?thesis by (subst TrimLeftSpace.simps) simp
  next
    case (Some e)
    with 1 show ?thesis by (subst TrimLeftSpace.simps) simp
  qed
qed

lemma trailingSpace_TrimRightSpace: "trailingSpace (TrimRightSpace s) = None"
proof (induction s rule: TrimRightSpace.induct)
  case (1 s)
  show ?case
  proof (cases "trailingSpace s")
    case None
    then show ?thesis by (subst TrimRightSpace.simps) simp
  next
    case (Some e)
    with 1 show ?thesis by (subst TrimRightSpace.simps) simp
  qed
qed

lemma prefix_TrimRightSpace: "prefix (TrimRightSpace s) s"
proof (induction s rule: TrimRightSpace.induct)
  case (1 s)
  show ?case
  proof (cases "trailingSpace s")
    case None
    then show ?thesis by (subst TrimRightSpace.simps) simp
  next
    case (Some e)
    with 1 have "prefix (TrimRightSpace (take (length s - length e) s))
                   (take (length s - length e) s)" by simp
    moreover have "prefix (take (length s - length e) s) s" by (rule take_is_prefix)
    ultimately have "prefix (TrimRightSpace (take (length s - length e) s)) s"
      by (rule prefix_order.trans)
    with Some show ?thesis by (subst TrimRightSpace.simps) simp
  qed
qed

lemma leadingSpace_prefix:
  assumes "leadingSpace t = None" and "prefix p t"
  shows "leadingSpace p = None"
proof (rule ccontr)
  assume "leadingSpace p \<noteq> None"
  then obtain e where "leadingSpace p = Some e" by auto
  then have "e \<in> set spaceEncodings" and "prefix e p"
    by (auto simp: leadingSpace_def find_Some_iff)
  with assms(2) have "prefix e t" by (auto intro: prefix_order.trans)
  with \<open>e \<in> set spaceEncodings\<close> assms(1) show False
    by (auto simp: leadingSpace_def find_None_iff)
qed

lemma TrimSpace_trimmed:
  "leadingSpace (TrimSpace s) = None \<and> trailingSpace (TrimSpace s) = None"
  unfolding TrimSpace_def
  using leadingSpace_prefix [OF leadingSpace_TrimLeftSpace prefix_TrimRightSpace]
    trailingSpace_TrimRightSpace
  by simp

subsection \<open>The loop over the entries\<close>

text \<open>One round of the loop stores the entry when it has a \<^verbatim>\<open>=\<close> and a non-empty key.\<close>

lemma headersLoop_Cons:
  "headersLoop (kv # keyValue) h =
     headersLoop keyValue
       (if CHR ''='' \<in> set kv \<and> entryKey kv \<noteq> [] then h(entryKey kv \<mapsto> entryValue kv)
        else h)"
  by (simp add: SplitN_2 entryKey_def entryValue_def Let_def)

lemma headersLoop_append:
  "headersLoop (xs @ ys) h = headersLoop ys (headersLoop xs h)"
  by (induction xs arbitrary: h)
    (simp_all only: headersLoop_Cons append.simps headersLoop.simps(1))

lemma headersLoop_malformed:
  "(\<forall>kv\<in>set kvs. CHR ''='' \<notin> set kv \<or> entryKey kv = []) \<Longrightarrow> headersLoop kvs h = h"
proof (induction kvs arbitrary: h)
  case Nil
  then show ?case by simp
next
  case (Cons kv kvs)
  then have "headersLoop kvs h' = h'" for h' by simp
  moreover from Cons.prems have "CHR ''='' \<notin> set kv \<or> entryKey kv = []" by simp
  ultimately show ?case by (simp only: headersLoop_Cons) auto
qed

lemma headersLoop_other_keys:
  "(\<forall>kv\<in>set kvs. CHR ''='' \<in> set kv \<longrightarrow> entryKey kv \<noteq> k) \<Longrightarrow> headersLoop kvs h k = h k"
proof (induction kvs arbitrary: h)
  case Nil
  then show ?case by simp
next
  case (Cons kv kvs)
  then have "headersLoop kvs h' k = h' k" for h' by simp
  moreover from Cons.prems have "CHR ''='' \<in> set kv \<Longrightarrow> entryKey kv \<noteq> k" by simp
  ultimately show ?case by (simp only: headersLoop_Cons) auto
qed

text \<open>A key that the loop has stored stays in the map.\<close>

lemma headersLoop_dom_mono: "x \<in> dom h \<Longrightarrow> x \<in> dom (headersLoop kvs h)"
proof (induction kvs arbitrary: h)
  case Nil
  then show ?case by simp
next
  case (Cons kv kvs)
  show ?case
    by (simp only: headersLoop_Cons) (rule Cons.IH, use Cons.prems in auto)
qed

lemma headersLoop_dom:
  "kv \<in> set kvs \<Longrightarrow> CHR ''='' \<in> set kv \<Longrightarrow> entryKey kv \<noteq> [] \<Longrightarrow>
     entryKey kv \<in> dom (headersLoop kvs h)"
proof (induction kvs arbitrary: h)
  case Nil
  then show ?case by simp
next
  case (Cons x kvs)
  show ?case
  proof (cases "kv = x")
    case True
    with Cons.prems show ?thesis
      by (simp only: headersLoop_Cons) (rule headersLoop_dom_mono, simp)
  next
    case False
    with Cons.prems have "kv \<in> set kvs" by simp
    then have "entryKey kv \<in> dom (headersLoop kvs h')" for h'
      using Cons.prems(2,3) by (rule Cons.IH)
    then show ?thesis
      by (simp only: headersLoop_Cons)
  qed
qed

lemma entry_key_value:
  assumes "CHR ''='' \<notin> set k"
  shows "entryKey (k @ CHR ''='' # v) = TrimSpace k"
    and "entryValue (k @ CHR ''='' # v) = TrimSpace v"
  using assms
  by (simp_all add: entryKey_def entryValue_def takeWhile_before_sep dropWhile_before_sep)

subsection \<open>Construction through a nil pointer\<close>

lemma nil_configuration_panics:
  "evaluateCredentials None = Inl NilPointerDereference"
  "evaluateCredentials (Some \<lparr>OTLPConfigs = None\<rparr>) = Inl NilPointerDereference"
  "newPerRPCCredentials None = Inl NilPointerDereference"
  "newPerRPCCredentials (Some \<lparr>OTLPConfigs = None\<rparr>) = Inl NilPointerDereference"
  "NewExporterGRPCClient nc None w = (Inl NilPointerDereference, w)"
  "NewExporterGRPCClient nc (Some \<lparr>OTLPConfigs = None\<rparr>) w = (Inl NilPointerDereference, w)"
  "NewExporterGRPCClient_otlp_grpc nc None w = (Inl NilPointerDereference, w)"
  "NewExporterGRPCClient_otlp_grpc nc (Some \<lparr>OTLPConfigs = None\<rparr>) w =
     (Inl NilPointerDereference, w)"
  by (simp_all add: evaluateCredentials_def newPerRPCCredentials_def NewExporterGRPCClient_def
      NewExporterGRPCClient_otlp_grpc_def cfgs_OTLPConfigs_def)

subsection \<open>Construction with both pointers set\<close>

lemma exampleOTLPConfigs_simps:
  "ExporterTLSEnabled (exampleOTLPConfigs tls hs) = tls"
  "ExporterHeaders (exampleOTLPConfigs tls hs) = hs"
  "Endpoint (exampleOTLPConfigs tls hs) = ''localhost:4317''"
  "(exampleOTLPConfigs tls hs)\<lparr>ExporterHeaders := hs'\<rparr> = exampleOTLPConfigs tls hs'"
  "(exampleOTLPConfigs tls hs)\<lparr>ExporterTLSEnabled := tls'\<rparr> = exampleOTLPConfigs tls' hs"
  by (simp_all add: exampleOTLPConfigs_def)

lemma cfgs_OTLPConfigs_Some: "cfgs_OTLPConfigs (Some \<lparr>OTLPConfigs = Some oc\<rparr>) = Inr oc"
  by (simp add: cfgs_OTLPConfigs_def)

lemma evaluateCredentials_Some:
  "evaluateCredentials (Some \<lparr>OTLPConfigs = Some oc\<rparr>) =
     Inr (if ExporterTLSEnabled oc then NewClientTLSFromCert [] ''''
          else insecure_NewCredentials)"
  by (simp add: evaluateCredentials_def cfgs_OTLPConfigs_Some NewCertPool_def)

lemma newPerRPCCredentials_Some:
  "newPerRPCCredentials (Some \<lparr>OTLPConfigs = Some oc\<rparr>) =
     Inr \<lparr>tlsEnabled = ExporterTLSEnabled oc,
          headers = (if ExporterHeaders oc \<noteq> []
                     then headersLoop (Split (ExporterHeaders oc) (CHR '','')) Map.empty
                     else Map.empty)\<rparr>"
  by (simp add: newPerRPCCredentials_def cfgs_OTLPConfigs_Some)

lemma Second_value: "Second = 1000000000"
  by (simp add: Second_def Millisecond_def Microsecond_def Nanosecond_def)

text \<open>
  The whole of \<open>NewExporterGRPCClient\<close> once both pointers are set: one call of
  \<^verbatim>\<open>grpc.NewClient\<close>, whose error, if any, is wrapped.
\<close>

lemma NewExporterGRPCClient_Some:
  "NewExporterGRPCClient nc (Some \<lparr>OTLPConfigs = Some oc\<rparr>) w =
     (case nc (Endpoint oc) (dialOptions oc) w of
        ((conn, Some e), w') \<Rightarrow>
          (Inr (None,
                Some (wrapError
                        (''failed to create otel exporter gRPC conn: '' @ Error e) e)),
           w')
      | ((conn, None), w') \<Rightarrow> (Inr (conn, None), w'))"
  by (simp add: NewExporterGRPCClient_def cfgs_OTLPConfigs_Some evaluateCredentials_Some
      newPerRPCCredentials_Some Second_value dialOptions_def fixedConnectParams_def
      Errorf_w_def split: prod.splits option.splits)

lemma NewExporterGRPCClient_otlp_grpc_Some:
  "NewExporterGRPCClient_otlp_grpc nc (Some \<lparr>OTLPConfigs = Some oc\<rparr>) w =
     (case nc (Endpoint oc) (dialOptions_otlp_grpc oc) w of
        ((conn, Some e), w') \<Rightarrow>
          (Inr (None,
                Some (wrapError
                        (''failed to create otel exporter gRPC conn: '' @ Error e) e)),
           w')
      | ((conn, None), w') \<Rightarrow> (Inr (conn, None), w'))"
  by (simp add: NewExporterGRPCClient_otlp_grpc_def cfgs_OTLPConfigs_Some
      Second_value dialOptions_otlp_grpc_def fixedConnectParams_def Errorf_w_def
      split: prod.splits option.splits)

lemma recording_calls:
  "fst (snd (recording nc target opts (calls, w))) = calls @ [(target, opts)]"
  by (simp add: recording_def split: prod.splits)

lemma callSequence_receiver: "snd (callSequence h calls) = h"
proof (induction calls)
  case Nil
  show ?case by simp
next
  case (Cons c cs)
  have "snd (callMethod h c) = h" by (cases c) simp_all
  with Cons show ?case by (simp add: split_beta)
qed

subsection \<open>What the parsed map holds\<close>

text \<open>
  An entry with a \<^verbatim>\<open>=\<close> and a non-empty key binds its key to its value in the result,
  unless a later entry has the same key.
\<close>

lemma headers_of_entry:
  assumes "Split (ExporterHeaders oc) (CHR '','') = before @ kv # after"
    and "CHR ''='' \<in> set kv" and "entryKey kv \<noteq> []"
    and "\<forall>kv'\<in>set after. CHR ''='' \<in> set kv' \<longrightarrow> entryKey kv' \<noteq> entryKey kv"
  shows "\<exists>h. newPerRPCCredentials (Some \<lparr>OTLPConfigs = Some oc\<rparr>) = Inr h \<and>
             headers h (entryKey kv) = Some (entryValue kv)"
proof -
  from assms(1,2) have ne: "ExporterHeaders oc \<noteq> []"
    by (auto simp: Split_def genSplit_def Cons_eq_append_conv)
  let ?h = "headersLoop before Map.empty"
  have "headersLoop (before @ kv # after) Map.empty (entryKey kv) =
          headersLoop after (?h(entryKey kv \<mapsto> entryValue kv)) (entryKey kv)"
    using assms(2,3) by (simp only: headersLoop_append headersLoop_Cons) simp
  also have "\<dots> = Some (entryValue kv)"
    using assms(4) by (simp add: headersLoop_other_keys)
  finally show ?thesis
    using ne assms(1) by (simp add: newPerRPCCredentials_Some)
qed

text \<open>A header string that is one entry \<^verbatim>\<open>k=v\<close> yields the one binding of that entry.\<close>

lemma single_entry:
  assumes "CHR '','' \<notin> set k" and "CHR ''='' \<notin> set k" and "CHR '','' \<notin> set v"
    and "TrimSpace k \<noteq> []"
  shows "newPerRPCCredentials
           (Some \<lparr>OTLPConfigs = Some (oc\<lparr>ExporterHeaders := k @ CHR ''='' # v\<rparr>)\<rparr>) =
         Inr \<lparr>tlsEnabled = ExporterTLSEnabled oc, headers = [TrimSpace k \<mapsto> TrimSpace v]\<rparr>"
proof -
  let ?kv = "k @ CHR ''='' # v"
  from assms have "CHR '','' \<notin> set ?kv" by simp
  then have s: "Split ?kv (CHR '','') = [?kv]" by (rule Split_no_sep)
  from assms(2) have kv: "entryKey ?kv = TrimSpace k" "entryValue ?kv = TrimSpace v"
    by (rule entry_key_value)+
  have "headersLoop [?kv] Map.empty = [TrimSpace k \<mapsto> TrimSpace v]"
    using assms(4) by (simp only: headersLoop_Cons headersLoop.simps(1) kv) simp
  then show ?thesis
    by (simp add: newPerRPCCredentials_Some s)
qed

section \<open>The claims\<close>

subsection \<open>The Per-Call Authenticator and the TLS flag\<close>

text \<open>
  Claim C1. For every configuration (both pointers set), the credentials that
  \<open>newPerRPCCredentials\<close> builds answer \<open>RequireTransportSecurity\<close> with the
  \<open>ExporterTLSEnabled\<close> flag of that configuration, and they still do so after any
  sequence of calls of their two methods.
\<close>

theorem RequireTransportSecurity_equals_flag:
  "\<exists>h. newPerRPCCredentials (Some \<lparr>OTLPConfigs = Some oc\<rparr>) = Inr h \<and>
       RequireTransportSecurity h = ExporterTLSEnabled oc \<and>
       (\<forall>calls :: 'ctx methodCall list.
          RequireTransportSecurity (snd (callSequence h calls)) = ExporterTLSEnabled oc)"
  by (simp add: newPerRPCCredentials_Some callSequence_receiver RequireTransportSecurity_def)

subsection \<open>The Credential Selector\<close>

text \<open>
  Claim C2. With the TLS flag off, \<open>evaluateCredentials\<close> returns the plaintext
  credentials. With the flag on it returns TLS client credentials over the pool that
  \<^verbatim>\<open>x509.NewCertPool()\<close> has just made, to which nothing was added: the trust pool is
  empty, where the claim asks for a non-empty one.
\<close>

theorem evaluateCredentials_empty_pool:
  "evaluateCredentials (Some \<lparr>OTLPConfigs = Some (oc\<lparr>ExporterTLSEnabled := False\<rparr>)\<rparr>) =
     Inr insecure_NewCredentials \<and>
   evaluateCredentials (Some \<lparr>OTLPConfigs = Some (oc\<lparr>ExporterTLSEnabled := True\<rparr>)\<rparr>) =
     Inr (NewClientTLSFromCert [] '''')"
  by (simp add: evaluateCredentials_Some)

subsection \<open>Parsing the header string\<close>

text \<open>
  Claim C3. The header string \<^verbatim>\<open>a=1, b=2,c = three\<close> is parsed into exactly the map
  \<^verbatim>\<open>{a: "1", b: "2", c: "three"}\<close>: the string is cut at the commas, each entry at its
  first \<^verbatim>\<open>=\<close>, and the white space around keys and values is gone.
\<close>

theorem parse_three_entries:
  "newPerRPCCredentials
     (Some \<lparr>OTLPConfigs = Some (oc\<lparr>ExporterHeaders := ''a=1, b=2,c = three''\<rparr>)\<rparr>) =
   Inr \<lparr>tlsEnabled = ExporterTLSEnabled oc,
        headers = [''a'' \<mapsto> ''1'', ''b'' \<mapsto> ''2'', ''c'' \<mapsto> ''three'']\<rparr>"
proof -
  have s: "Split ''a=1, b=2,c = three'' (CHR '','') = [''a=1'', '' b=2'', ''c = three'']"
    by code_simp
  have k: "entryKey ''a=1'' = ''a''" "entryKey '' b=2'' = ''b''"
    "entryKey ''c = three'' = ''c''"
    by code_simp+
  have v: "entryValue ''a=1'' = ''1''" "entryValue '' b=2'' = ''2''"
    "entryValue ''c = three'' = ''three''"
    by code_simp+
  have "headersLoop (Split ''a=1, b=2,c = three'' (CHR '','')) Map.empty =
          [''a'' \<mapsto> ''1'', ''b'' \<mapsto> ''2'', ''c'' \<mapsto> ''three'']"
    by (simp only: s headersLoop_Cons headersLoop.simps(1) k v) simp
  then show ?thesis
    by (simp add: newPerRPCCredentials_Some)
qed

text \<open>
  Claim C4. Only the first \<^verbatim>\<open>=\<close> of an entry delimits. Whenever an entry of the header
  string reads \<open>k\<close>, \<^verbatim>\<open>=\<close>, \<open>v\<close> with no \<^verbatim>\<open>=\<close> in \<open>k\<close> and a key \<open>k\<close> that is not empty
  once trimmed, and no later entry has the same key, the map binds the trimmed \<open>k\<close> to
  the trimmed \<open>v\<close>, whatever further \<^verbatim>\<open>=\<close> signs \<open>v\<close> holds. And \<^verbatim>\<open>a=1=extra\<close> is parsed
  into exactly \<^verbatim>\<open>{a: "1=extra"}\<close>.
\<close>

theorem first_equals_sign_delimits:
  "(Split (ExporterHeaders oc) (CHR '','') = before @ (k @ CHR ''='' # v) # after \<and>
    CHR ''='' \<notin> set k \<and> TrimSpace k \<noteq> [] \<and>
    (\<forall>kv'\<in>set after. CHR ''='' \<in> set kv' \<longrightarrow> entryKey kv' \<noteq> TrimSpace k) \<longrightarrow>
    (\<exists>h. newPerRPCCredentials (Some \<lparr>OTLPConfigs = Some oc\<rparr>) = Inr h \<and>
         headers h (TrimSpace k) = Some (TrimSpace v))) \<and>
   newPerRPCCredentials
     (Some \<lparr>OTLPConfigs = Some (oc\<lparr>ExporterHeaders := ''a=1=extra''\<rparr>)\<rparr>) =
   Inr \<lparr>tlsEnabled = ExporterTLSEnabled oc, headers = [''a'' \<mapsto> ''1=extra'']\<rparr>"
proof (intro conjI impI)
  assume a: "Split (ExporterHeaders oc) (CHR '','') = before @ (k @ CHR ''='' # v) # after \<and>
    CHR ''='' \<notin> set k \<and> TrimSpace k \<noteq> [] \<and>
    (\<forall>kv'\<in>set after. CHR ''='' \<in> set kv' \<longrightarrow> entryKey kv' \<noteq> TrimSpace k)"
  let ?kv = "k @ CHR ''='' # v"
  from a have kv: "entryKey ?kv = TrimSpace k" "entryValue ?kv = TrimSpace v"
    by (simp_all add: entry_key_value)
  have "\<exists>h. newPerRPCCredentials (Some \<lparr>OTLPConfigs = Some oc\<rparr>) = Inr h \<and>
             headers h (entryKey ?kv) = Some (entryValue ?kv)"
    using a by (intro headers_of_entry [of oc before ?kv after]) (simp_all add: kv)
  then show "\<exists>h. newPerRPCCredentials (Some \<lparr>OTLPConfigs = Some oc\<rparr>) = Inr h \<and>
                 headers h (TrimSpace k) = Some (TrimSpace v)"
    by (simp only: kv)
next
  have t: "TrimSpace ''a'' = ''a''" "TrimSpace ''1=extra'' = ''1=extra''"
    by code_simp+
  have "newPerRPCCredentials
          (Some \<lparr>OTLPConfigs =
                   Some (oc\<lparr>ExporterHeaders := ''a'' @ CHR ''='' # ''1=extra''\<rparr>)\<rparr>) =
        Inr \<lparr>tlsEnabled = ExporterTLSEnabled oc,
             headers = [TrimSpace ''a'' \<mapsto> TrimSpace ''1=extra'']\<rparr>"
    by (rule single_entry) (simp_all add: t)
  then show "newPerRPCCredentials
      (Some \<lparr>OTLPConfigs = Some (oc\<lparr>ExporterHeaders := ''a=1=extra''\<rparr>)\<rparr>) =
     Inr \<lparr>tlsEnabled = ExporterTLSEnabled oc, headers = [''a'' \<mapsto> ''1=extra'']\<rparr>"
    by (simp add: t)
qed

theorem first_equals_sign_delimits_witness:
  "\<exists>h. newPerRPCCredentials (exampleConfigs False ''x=0,token = abc=='') = Inr h \<and>
       headers h ''token'' = Some ''abc==''"
proof -
  have s: "Split ''x=0,token = abc=='' (CHR '','') =
             [''x=0''] @ (''token '' @ CHR ''='' # '' abc=='') # []"
    by code_simp
  have t: "TrimSpace ''token '' = ''token''" "TrimSpace '' abc=='' = ''abc==''"
    by code_simp+
  have "Split (ExporterHeaders (exampleOTLPConfigs False ''x=0,token = abc==''))
          (CHR '','') = [''x=0''] @ (''token '' @ CHR ''='' # '' abc=='') # [] \<and>
        CHR ''='' \<notin> set ''token '' \<and> TrimSpace ''token '' \<noteq> [] \<and>
        (\<forall>kv'\<in>set []. CHR ''='' \<in> set kv' \<longrightarrow> entryKey kv' \<noteq> TrimSpace ''token '')"
    by (simp add: exampleOTLPConfigs_simps s t del: append.simps)
  then have "\<exists>h. newPerRPCCredentials
                (Some \<lparr>OTLPConfigs =
                         Some (exampleOTLPConfigs False ''x=0,token = abc=='')\<rparr>) = Inr h \<and>
              headers h (TrimSpace ''token '') = Some (TrimSpace '' abc=='')"
    by (rule first_equals_sign_delimits [THEN conjunct1, THEN mp])
  then show ?thesis
    by (simp only: exampleConfigs_def t)
qed

text \<open>
  Claim C5. The last occurrence of a key wins. Whenever an entry of the header string
  has a \<^verbatim>\<open>=\<close> and a non-empty key, and no entry after it has the same key, the map
  binds that key to the value of that entry, whatever the entries before it say. And
  \<^verbatim>\<open>a=1,a=2\<close> is parsed into exactly \<^verbatim>\<open>{a: "2"}\<close>.
\<close>

theorem last_occurrence_wins:
  "(Split (ExporterHeaders oc) (CHR '','') = before @ kv # after \<and>
    CHR ''='' \<in> set kv \<and> entryKey kv \<noteq> [] \<and>
    (\<forall>kv'\<in>set after. CHR ''='' \<in> set kv' \<longrightarrow> entryKey kv' \<noteq> entryKey kv) \<longrightarrow>
    (\<exists>h. newPerRPCCredentials (Some \<lparr>OTLPConfigs = Some oc\<rparr>) = Inr h \<and>
         headers h (entryKey kv) = Some (entryValue kv))) \<and>
   newPerRPCCredentials
     (Some \<lparr>OTLPConfigs = Some (oc\<lparr>ExporterHeaders := ''a=1,a=2''\<rparr>)\<rparr>) =
   Inr \<lparr>tlsEnabled = ExporterTLSEnabled oc, headers = [''a'' \<mapsto> ''2'']\<rparr>"
proof (intro conjI impI)
  assume "Split (ExporterHeaders oc) (CHR '','') = before @ kv # after \<and>
    CHR ''='' \<in> set kv \<and> entryKey kv \<noteq> [] \<and>
    (\<forall>kv'\<in>set after. CHR ''='' \<in> set kv' \<longrightarrow> entryKey kv' \<noteq> entryKey kv)"
  then show "\<exists>h. newPerRPCCredentials (Some \<lparr>OTLPConfigs = Some oc\<rparr>) = Inr h \<and>
                 headers h (entryKey kv) = Some (entryValue kv)"
    by (intro headers_of_entry [of oc before kv after]) simp_all
next
  have s: "Split ''a=1,a=2'' (CHR '','') = [''a=1'', ''a=2'']"
    by code_simp
  have kv: "entryKey ''a=1'' = ''a''" "entryKey ''a=2'' = ''a''"
    "entryValue ''a=1'' = ''1''" "entryValue ''a=2'' = ''2''"
    by code_simp+
  have "headersLoop (Split ''a=1,a=2'' (CHR '','')) Map.empty = [''a'' \<mapsto> ''2'']"
    by (simp only: s headersLoop_Cons headersLoop.simps(1) kv) simp
  then show "newPerRPCCredentials
      (Some \<lparr>OTLPConfigs = Some (oc\<lparr>ExporterHeaders := ''a=1,a=2''\<rparr>)\<rparr>) =
     Inr \<lparr>tlsEnabled = ExporterTLSEnabled oc, headers = [''a'' \<mapsto> ''2'']\<rparr>"
    by (simp add: newPerRPCCredentials_Some)
qed

theorem last_occurrence_wins_witness:
  "\<exists>h. newPerRPCCredentials (exampleConfigs True ''k=first, b=2 ,k = last,c=3'') = Inr h \<and>
       headers h ''k'' = Some ''last''"
proof -
  have s: "Split ''k=first, b=2 ,k = last,c=3'' (CHR '','') =
             [''k=first'', '' b=2 ''] @ ''k = last'' # [''c=3'']"
    by code_simp
  have kv: "entryKey ''k = last'' = ''k''" "entryValue ''k = last'' = ''last''"
    "entryKey ''c=3'' = ''c''"
    by code_simp+
  have "Split (ExporterHeaders (exampleOTLPConfigs True ''k=first, b=2 ,k = last,c=3''))
          (CHR '','') = [''k=first'', '' b=2 ''] @ ''k = last'' # [''c=3''] \<and>
        CHR ''='' \<in> set ''k = last'' \<and> entryKey ''k = last'' \<noteq> [] \<and>
        (\<forall>kv'\<in>set [''c=3'']. CHR ''='' \<in> set kv' \<longrightarrow> entryKey kv' \<noteq> entryKey ''k = last'')"
    by (simp add: exampleOTLPConfigs_simps s kv del: append.simps)
  then have "\<exists>h. newPerRPCCredentials
                (Some \<lparr>OTLPConfigs =
                         Some (exampleOTLPConfigs True ''k=first, b=2 ,k = last,c=3'')\<rparr>) =
              Inr h \<and>
              headers h (entryKey ''k = last'') = Some (entryValue ''k = last'')"
    by (rule last_occurrence_wins [THEN conjunct1, THEN mp])
  then show ?thesis
    by (simp only: exampleConfigs_def kv)
qed

text \<open>
  Claim C6. Header parsing is total and signals no error: for every configuration
  \<open>newPerRPCCredentials\<close> returns credentials. The empty header string yields the empty
  map, and so does every header string all of whose comma-separated entries are
  malformed, that is, have no \<^verbatim>\<open>=\<close> or have a key that is empty once trimmed.
\<close>

theorem header_parsing_total:
  "(\<exists>h. newPerRPCCredentials (Some \<lparr>OTLPConfigs = Some oc\<rparr>) = Inr h) \<and>
   newPerRPCCredentials (Some \<lparr>OTLPConfigs = Some (oc\<lparr>ExporterHeaders := ''''\<rparr>)\<rparr>) =
     Inr \<lparr>tlsEnabled = ExporterTLSEnabled oc, headers = Map.empty\<rparr> \<and>
   ((\<forall>kv\<in>set (Split (ExporterHeaders oc) (CHR '','')).
       CHR ''='' \<notin> set kv \<or> entryKey kv = []) \<longrightarrow>
    newPerRPCCredentials (Some \<lparr>OTLPConfigs = Some oc\<rparr>) =
      Inr \<lparr>tlsEnabled = ExporterTLSEnabled oc, headers = Map.empty\<rparr>)"
  by (simp add: newPerRPCCredentials_Some headersLoop_malformed)

theorem header_parsing_total_witness:
  "newPerRPCCredentials (exampleConfigs True ''novalue, =x,  = y ,,also none'') =
     Inr \<lparr>tlsEnabled = True, headers = Map.empty\<rparr>"
proof -
  have s: "Split ''novalue, =x,  = y ,,also none'' (CHR '','') =
             [''novalue'', '' =x'', ''  = y '', '''', ''also none'']"
    by code_simp
  have k: "entryKey '' =x'' = []" "entryKey ''  = y '' = []"
    by code_simp+
  have "\<forall>kv\<in>set (Split (ExporterHeaders
            (exampleOTLPConfigs True ''novalue, =x,  = y ,,also none'')) (CHR '','')).
          CHR ''='' \<notin> set kv \<or> entryKey kv = []"
    by (simp add: exampleOTLPConfigs_simps s k)
  then have "newPerRPCCredentials
               (Some \<lparr>OTLPConfigs =
                        Some (exampleOTLPConfigs True ''novalue, =x,  = y ,,also none'')\<rparr>) =
             Inr \<lparr>tlsEnabled =
                    ExporterTLSEnabled
                      (exampleOTLPConfigs True ''novalue, =x,  = y ,,also none''),
                  headers = Map.empty\<rparr>"
    by (rule header_parsing_total [THEN conjunct2, THEN conjunct2, THEN mp])
  then show ?thesis
    by (simp add: exampleConfigs_def exampleOTLPConfigs_simps)
qed

subsection \<open>The metadata of a call\<close>

text \<open>
  Claim C7. For every call context and every list of URIs, \<open>GetRequestMetadata\<close> on the
  credentials that \<open>newPerRPCCredentials\<close> built returns the map parsed at construction
  together with the \<^verbatim>\<open>nil\<close> error.
\<close>

theorem GetRequestMetadata_never_fails:
  "\<exists>h. newPerRPCCredentials (Some \<lparr>OTLPConfigs = Some oc\<rparr>) = Inr h \<and>
       (\<forall>(ctx :: 'ctx) uri.
          GetRequestMetadata h ctx uri =
            (if ExporterHeaders oc \<noteq> []
             then headersLoop (Split (ExporterHeaders oc) (CHR '','')) Map.empty
             else Map.empty,
             None))"
  by (simp add: newPerRPCCredentials_Some GetRequestMetadata_def)

subsection \<open>The Channel Assembler\<close>

text \<open>
  Claim C8. Whatever the configuration and whatever the gRPC library does, each variant
  of \<open>NewExporterGRPCClient\<close> calls \<^verbatim>\<open>grpc.NewClient\<close> once, and the connect parameters
  among the options of that call are the fixed ones: base delay 1 s, multiplier 1.6,
  maximum delay 15 s (in nanoseconds), minimum connect timeout 0.
\<close>

theorem backoff_is_fixed:
  "map (\<lambda>(target, opts). [p. WithConnectParams p \<leftarrow> opts])
     (fst (snd (NewExporterGRPCClient (recording nc) (Some \<lparr>OTLPConfigs = Some oc\<rparr>)
                  ([], w)))) =
     [[\<lparr>Backoff = \<lparr>BaseDelay = 1000000000, Multiplier = 1.6, Jitter = 0,
                  MaxDelay = 15000000000\<rparr>,
        MinConnectTimeout = 0\<rparr>]] \<and>
   map (\<lambda>(target, opts). [p. WithConnectParams p \<leftarrow> opts])
     (fst (snd (NewExporterGRPCClient_otlp_grpc (recording nc)
                  (Some \<lparr>OTLPConfigs = Some oc\<rparr>) ([], w)))) =
     [[\<lparr>Backoff = \<lparr>BaseDelay = 1000000000, Multiplier = 1.6, Jitter = 0,
                  MaxDelay = 15000000000\<rparr>,
        MinConnectTimeout = 0\<rparr>]]"
proof -
  have a: "fst (snd (case r of ((conn, Some e), w') \<Rightarrow> (f conn e, w')
                             | ((conn, None), w') \<Rightarrow> (g conn, w'))) = fst (snd r)"
    for r :: "('c option \<times> error option) \<times> ('l \<times> 'v)"
      and f :: "'c option \<Rightarrow> error \<Rightarrow> 'r" and g
    by (simp split: prod.splits option.splits)
  show ?thesis
    by (simp add: NewExporterGRPCClient_Some NewExporterGRPCClient_otlp_grpc_Some a
        recording_calls dialOptions_def dialOptions_otlp_grpc_def fixedConnectParams_def)
qed

text \<open>
  Claim C9, as the code has it. When \<^verbatim>\<open>grpc.NewClient\<close>, called with the endpoint and the
  options of the configuration, returns an error, each variant of
  \<open>NewExporterGRPCClient\<close> returns no connection and one error, which wraps the library's
  error under the message \<^verbatim>\<open>failed to create otel exporter gRPC conn: \<close> followed by the
  library's message. When \<^verbatim>\<open>grpc.NewClient\<close> returns no error, neither does
  \<open>NewExporterGRPCClient\<close>. In both cases the state of the outside world is the one
  that this single call of \<^verbatim>\<open>grpc.NewClient\<close> leaves: there is no second call.
\<close>

theorem construction_failure_is_wrapped:
  "(nc (Endpoint oc) (dialOptions oc) w = ((conn, Some e), w') \<longrightarrow>
      NewExporterGRPCClient nc (Some \<lparr>OTLPConfigs = Some oc\<rparr>) w =
        (Inr (None,
              Some (wrapError (''failed to create otel exporter gRPC conn: '' @ Error e) e)),
         w')) \<and>
   (nc (Endpoint oc) (dialOptions oc) w = ((conn, None), w') \<longrightarrow>
      NewExporterGRPCClient nc (Some \<lparr>OTLPConfigs = Some oc\<rparr>) w =
        (Inr (conn, None), w')) \<and>
   (nc (Endpoint oc) (dialOptions_otlp_grpc oc) w = ((conn, Some e), w') \<longrightarrow>
      NewExporterGRPCClient_otlp_grpc nc (Some \<lparr>OTLPConfigs = Some oc\<rparr>) w =
        (Inr (None,
              Some (wrapError (''failed to create otel exporter gRPC conn: '' @ Error e) e)),
         w')) \<and>
   (nc (Endpoint oc) (dialOptions_otlp_grpc oc) w = ((conn, None), w') \<longrightarrow>
      NewExporterGRPCClient_otlp_grpc nc (Some \<lparr>OTLPConfigs = Some oc\<rparr>) w =
        (Inr (conn, None), w'))"
  by (simp add: NewExporterGRPCClient_Some NewExporterGRPCClient_otlp_grpc_Some)

theorem construction_failure_is_wrapped_witness:
  "NewExporterGRPCClient rejectingNewClient (exampleConfigs True ''a=1'') 0 =
     (Inr (None,
           Some (wrapError ''failed to create otel exporter gRPC conn: invalid target''
                   (grpcError ''invalid target''))),
      1) \<and>
   NewExporterGRPCClient_otlp_grpc rejectingNewClient (exampleConfigs True ''a=1'') 0 =
     (Inr (None,
           Some (wrapError ''failed to create otel exporter gRPC conn: invalid target''
                   (grpcError ''invalid target''))),
      1)"
proof -
  let ?oc = "exampleOTLPConfigs True ''a=1''"
  have r: "rejectingNewClient target opts 0 =
             ((None, Some (grpcError ''invalid target'')), 1)" for target opts
    by (simp add: rejectingNewClient_def)
  note c = construction_failure_is_wrapped
    [of rejectingNewClient ?oc 0 None "grpcError ''invalid target''" 1]
  from c [THEN conjunct1, THEN mp, OF r]
    c [THEN conjunct2, THEN conjunct2, THEN conjunct1, THEN mp, OF r]
  show ?thesis
    by (simp add: exampleConfigs_def)
qed

text \<open>
  The message of the wrapping error at a rejected configuration does not contain the
  text \<^verbatim>\<open>failed to create exporter channel\<close>.
\<close>

theorem construction_failure_message:
  "NewExporterGRPCClient rejectingNewClient (exampleConfigs False '''') 0 =
     (Inr (None,
           Some (wrapError ''failed to create otel exporter gRPC conn: invalid target''
                   (grpcError ''invalid target''))),
      1) \<and>
   \<not> sublist ''failed to create exporter channel''
        (Error (wrapError ''failed to create otel exporter gRPC conn: invalid target''
                  (grpcError ''invalid target'')))"
proof
  show "NewExporterGRPCClient rejectingNewClient (exampleConfigs False '''') 0 =
     (Inr (None,
           Some (wrapError ''failed to create otel exporter gRPC conn: invalid target''
                   (grpcError ''invalid target''))),
      1)"
    by (simp add: exampleConfigs_def NewExporterGRPCClient_Some rejectingNewClient_def)
  show "\<not> sublist ''failed to create exporter channel''
        (Error (wrapError ''failed to create otel exporter gRPC conn: invalid target''
                  (grpcError ''invalid target'')))"
    by code_simp
qed

subsection \<open>Entries with an empty value\<close>

text \<open>
  Claim C10, as the code has it. An entry is dropped for its key only, never for its
  value. Every entry of the header string that has a \<^verbatim>\<open>=\<close> and a key that is not empty
  once trimmed leaves its trimmed key in the map, whatever its value. And for every key
  \<open>k\<close> without comma and without \<^verbatim>\<open>=\<close> that is not empty once trimmed, and every \<open>v\<close>
  without comma that is empty once trimmed (the empty string, or blanks), the header
  string \<open>k\<close>, \<^verbatim>\<open>=\<close>, \<open>v\<close> is parsed into the map that binds the trimmed \<open>k\<close>, not \<open>k\<close>
  as written, to the empty string.
\<close>

theorem empty_value_is_kept:
  "(kv \<in> set (Split (ExporterHeaders oc) (CHR '','')) \<and> CHR ''='' \<in> set kv \<and>
    entryKey kv \<noteq> [] \<longrightarrow>
    (\<exists>h. newPerRPCCredentials (Some \<lparr>OTLPConfigs = Some oc\<rparr>) = Inr h \<and>
         entryKey kv \<in> dom (headers h))) \<and>
   (CHR '','' \<notin> set k \<and> CHR ''='' \<notin> set k \<and> TrimSpace k \<noteq> [] \<and>
    CHR '','' \<notin> set v \<and> TrimSpace v = [] \<longrightarrow>
    newPerRPCCredentials
      (Some \<lparr>OTLPConfigs = Some (oc\<lparr>ExporterHeaders := k @ CHR ''='' # v\<rparr>)\<rparr>) =
    Inr \<lparr>tlsEnabled = ExporterTLSEnabled oc, headers = [TrimSpace k \<mapsto> []]\<rparr>)"
proof (intro conjI impI)
  assume a: "kv \<in> set (Split (ExporterHeaders oc) (CHR '','')) \<and> CHR ''='' \<in> set kv \<and>
    entryKey kv \<noteq> []"
  then have ne: "ExporterHeaders oc \<noteq> []"
    by (auto simp: Split_def genSplit_def)
  from a have "entryKey kv \<in> dom (headersLoop (Split (ExporterHeaders oc) (CHR '','')) Map.empty)"
    by (simp add: headersLoop_dom)
  with ne show "\<exists>h. newPerRPCCredentials (Some \<lparr>OTLPConfigs = Some oc\<rparr>) = Inr h \<and>
                    entryKey kv \<in> dom (headers h)"
    by (simp add: newPerRPCCredentials_Some)
next
  assume "CHR '','' \<notin> set k \<and> CHR ''='' \<notin> set k \<and> TrimSpace k \<noteq> [] \<and>
    CHR '','' \<notin> set v \<and> TrimSpace v = []"
  then show "newPerRPCCredentials
      (Some \<lparr>OTLPConfigs = Some (oc\<lparr>ExporterHeaders := k @ CHR ''='' # v\<rparr>)\<rparr>) =
    Inr \<lparr>tlsEnabled = ExporterTLSEnabled oc, headers = [TrimSpace k \<mapsto> []]\<rparr>"
    using single_entry [of k v oc] by simp
qed

theorem empty_value_is_kept_witness:
  "(\<exists>h. newPerRPCCredentials (exampleConfigs True ''a=1,k=,b=2'') = Inr h \<and>
        ''k'' \<in> dom (headers h)) \<and>
   newPerRPCCredentials (exampleConfigs True ''k='') =
     Inr \<lparr>tlsEnabled = True, headers = [''k'' \<mapsto> '''']\<rparr> \<and>
   newPerRPCCredentials (exampleConfigs True ''k=   '') =
     Inr \<lparr>tlsEnabled = True, headers = [''k'' \<mapsto> '''']\<rparr>"
proof (intro conjI)
  have s: "Split ''a=1,k=,b=2'' (CHR '','') = [''a=1'', ''k='', ''b=2'']"
    by code_simp
  have k: "entryKey ''k='' = ''k''"
    by code_simp
  have "''k='' \<in> set (Split (ExporterHeaders (exampleOTLPConfigs True ''a=1,k=,b=2''))
                        (CHR '','')) \<and>
        CHR ''='' \<in> set ''k='' \<and> entryKey ''k='' \<noteq> []"
    by (simp add: exampleOTLPConfigs_simps s k)
  then have "\<exists>h. newPerRPCCredentials
                (Some \<lparr>OTLPConfigs = Some (exampleOTLPConfigs True ''a=1,k=,b=2'')\<rparr>) =
              Inr h \<and> entryKey ''k='' \<in> dom (headers h)"
    by (rule empty_value_is_kept [THEN conjunct1, THEN mp])
  then show "\<exists>h. newPerRPCCredentials (exampleConfigs True ''a=1,k=,b=2'') = Inr h \<and>
                 ''k'' \<in> dom (headers h)"
    by (simp only: exampleConfigs_def k)
next
  have t: "TrimSpace ''k'' = ''k''" "TrimSpace '''' = ''''"
    by code_simp+
  have "CHR '','' \<notin> set ''k'' \<and> CHR ''='' \<notin> set ''k'' \<and> TrimSpace ''k'' \<noteq> [] \<and>
        CHR '','' \<notin> set '''' \<and> TrimSpace '''' = []"
    by (simp add: t)
  then have "newPerRPCCredentials
          (Some \<lparr>OTLPConfigs =
             Some ((exampleOTLPConfigs True [])\<lparr>ExporterHeaders := ''k'' @ CHR ''='' # ''''\<rparr>)\<rparr>) =
        Inr \<lparr>tlsEnabled = ExporterTLSEnabled (exampleOTLPConfigs True []),
             headers = [TrimSpace ''k'' \<mapsto> []]\<rparr>"
    by (rule empty_value_is_kept [THEN conjunct2, THEN mp])
  then show "newPerRPCCredentials (exampleConfigs True ''k='') =
     Inr \<lparr>tlsEnabled = True, headers = [''k'' \<mapsto> '''']\<rparr>"
    by (simp add: exampleConfigs_def exampleOTLPConfigs_simps t)
next
  have t: "TrimSpace ''k'' = ''k''" "TrimSpace ''   '' = ''''"
    by code_simp+
  have "CHR '','' \<notin> set ''k'' \<and> CHR ''='' \<notin> set ''k'' \<and> TrimSpace ''k'' \<noteq> [] \<and>
        CHR '','' \<notin> set ''   '' \<and> TrimSpace ''   '' = []"
    by (simp add: t)
  then have "newPerRPCCredentials
          (Some \<lparr>OTLPConfigs =
             Some ((exampleOTLPConfigs True [])\<lparr>ExporterHeaders := ''k'' @ CHR ''='' # ''   ''\<rparr>)\<rparr>) =
        Inr \<lparr>tlsEnabled = ExporterTLSEnabled (exampleOTLPConfigs True []),
             headers = [TrimSpace ''k'' \<mapsto> []]\<rparr>"
    by (rule empty_value_is_kept [THEN conjunct2, THEN mp])
  then show "newPerRPCCredentials (exampleConfigs True ''k=   '') =
     Inr \<lparr>tlsEnabled = True, headers = [''k'' \<mapsto> '''']\<rparr>"
    by (simp add: exampleConfigs_def exampleOTLPConfigs_simps t)
qed

text \<open>
  The key that is bound is the trimmed one: the key \<^verbatim>\<open>" a"\<close> is not empty once trimmed,
  yet the header string \<^verbatim>\<open>" a="\<close> is parsed into the map \<^verbatim>\<open>{a: ""}\<close>, which does not
  contain \<^verbatim>\<open>" a"\<close>.
\<close>

theorem untrimmed_key_is_not_bound:
  "TrimSpace '' a'' \<noteq> [] \<and>
   newPerRPCCredentials (exampleConfigs True '' a='') =
     Inr \<lparr>tlsEnabled = True, headers = [''a'' \<mapsto> '''']\<rparr> \<and>
   '' a'' \<notin> dom [''a'' \<mapsto> '''']"
proof (intro conjI)
  have t: "TrimSpace '' a'' = ''a''" "TrimSpace '''' = ''''"
    by code_simp+
  show "TrimSpace '' a'' \<noteq> []"
    by (simp add: t)
  have "newPerRPCCredentials
          (Some \<lparr>OTLPConfigs =
             Some ((exampleOTLPConfigs True [])\<lparr>ExporterHeaders := '' a'' @ CHR ''='' # ''''\<rparr>)\<rparr>) =
        Inr \<lparr>tlsEnabled = ExporterTLSEnabled (exampleOTLPConfigs True []),
             headers = [TrimSpace '' a'' \<mapsto> TrimSpace '''']\<rparr>"
    by (rule single_entry) (simp_all add: t)
  then show "newPerRPCCredentials (exampleConfigs True '' a='') =
     Inr \<lparr>tlsEnabled = True, headers = [''a'' \<mapsto> '''']\<rparr>"
    by (simp add: exampleConfigs_def exampleOTLPConfigs_simps t)
  show "'' a'' \<notin> dom [''a'' \<mapsto> '''']"
    by simp
qed

end
